theory Spec2Isabelle
  imports Complex_Main
begin

section \<open>Values and exceptions\<close>

text \<open>
  Samples are modelled as real numbers, and the rounding of the operations on samples is not
  modelled. Two things of IEEE arithmetic are modelled, the two on which the program's
  result depends beyond the last place: numpy's true division, which for a zero divisor
  returns NaN or an infinity (with a warning) instead of raising, and the rounding of the
  bin frequencies, which the program compares with the band edges.
\<close>

datatype npfloat = Finite real | PosInf | NegInf | NaN

datatype py_error =
    ValueError string
  | ZeroDivisionError
  | IndexError
  | LibraryError string

fun str_of_error :: "py_error \<Rightarrow> string" where
  "str_of_error (ValueError m) = m"
| "str_of_error ZeroDivisionError = ''division by zero''"
| "str_of_error IndexError = ''list index out of range''"
| "str_of_error (LibraryError m) = m"

definition np_divide :: "real \<Rightarrow> real \<Rightarrow> npfloat" where
  "np_divide x m =
     (if m \<noteq> 0 then Finite (x / m)
      else if x = 0 then NaN
      else if 0 < x then PosInf
      else NegInf)"

definition np_max :: "real list \<Rightarrow> py_error + real" where
  "np_max xs =
     (if xs = []
      then Inl (ValueError ''zero-size array to reduction operation maximum which has no identity'')
      else Inr (Max (set xs)))"

text \<open>
  Rounding to binary64, to nearest with ties to even: a number with binary exponent \<open>e\<close> is
  rounded to a multiple of \<open>2 ^ (e - 52)\<close>, below \<open>2 ^ (- 1022)\<close> to a multiple of
  \<open>2 ^ (- 1074)\<close>. Overflow to an infinity is not modelled.
\<close>

definition round_half_even :: "real \<Rightarrow> int" where
  "round_half_even m =
     (let f = \<lfloor>m\<rfloor>; r = m - of_int f
      in if r < 1 / 2 then f
         else if 1 / 2 < r then f + 1
         else if even f then f else f + 1)"

definition fl64 :: "real \<Rightarrow> real" where
  "fl64 x =
     (if x = 0 then 0
      else let e = max \<lfloor>log 2 \<bar>x\<bar>\<rfloor> (- 1022);
               ulp = 2 powi (e - 52)
           in of_int (round_half_even (x / ulp)) * ulp)"

section \<open>Dynamic range compression\<close>

text \<open>
  \<^verbatim>\<open>compressed_signal = np.sign(signal) * np.log1p(np.abs(signal)) * 1.2\<close>
\<close>

definition compressed_signal :: "real list \<Rightarrow> real list" where
  "compressed_signal signal = map (\<lambda>x. sgn x * ln (1 + \<bar>x\<bar>) * (12 / 10)) signal"

text \<open>
  \<^verbatim>\<open>return compressed_signal / np.max(np.abs(compressed_signal))\<close>
\<close>

definition apply_dynamic_range_compression :: "real list \<Rightarrow> py_error + npfloat list" where
  "apply_dynamic_range_compression signal =
     (let cs = compressed_signal signal in
      case np_max (map abs cs) of
        Inl e \<Rightarrow> Inl e
      | Inr m \<Rightarrow> Inr (map (\<lambda>y. np_divide y m) cs))"

text \<open>
  The compression curve with the constant 1.2 replaced by a gain \<open>c\<close>, followed by the same
  peak normalisation: the comparison object of the claim on the cancelling gain.
\<close>

definition compressed_with_gain :: "real \<Rightarrow> real list \<Rightarrow> real list" where
  "compressed_with_gain c signal = map (\<lambda>x. sgn x * ln (1 + \<bar>x\<bar>) * c) signal"

definition compression_with_gain :: "real \<Rightarrow> real list \<Rightarrow> py_error + npfloat list" where
  "compression_with_gain c signal =
     (let cs = compressed_with_gain c signal in
      case np_max (map abs cs) of
        Inl e \<Rightarrow> Inl e
      | Inr m \<Rightarrow> Inr (map (\<lambda>y. np_divide y m) cs))"

text \<open>The peak of the compressed intermediate, \<open>0\<close> standing in for the empty buffer.\<close>

definition compressed_peak :: "real list \<Rightarrow> real" where
  "compressed_peak signal = (case np_max (map abs (compressed_signal signal)) of Inl e \<Rightarrow> 0 | Inr m \<Rightarrow> m)"

section \<open>Frequency-dependent attenuation\<close>

text \<open>
  \<^verbatim>\<open>np.fft.rfft\<close>: the discrete Fourier transform of a real buffer of length \<open>n\<close>, of which
  the bins \<open>0 .. n div 2\<close> are returned. An empty buffer raises.
\<close>

definition rfft :: "real list \<Rightarrow> py_error + complex list" where
  "rfft a =
     (let n = length a in
      if n < 1 then Inl (ValueError ''Invalid number of FFT data points (0) specified.'')
      else Inr (map (\<lambda>k. \<Sum>j<n. complex_of_real (a ! j) * cis (- (2 * pi * real j * real k / real n)))
                    [0..<n div 2 + 1]))"

text \<open>
  \<^verbatim>\<open>np.fft.irfft\<close> called without a length: the output length is taken to be
  \<open>2 * (m - 1)\<close> for \<open>m\<close> input bins, the input is read as the non-negative half of a
  Hermitian spectrum (the imaginary parts of the first and the last bin are ignored), and an
  output length below one raises.
\<close>

definition irfft :: "complex list \<Rightarrow> py_error + real list" where
  "irfft a =
     (let n = (int (length a) - 1) * 2 in
      if n < 1
      then Inl (ValueError (if length a = 0 then ''Invalid number of FFT data points (-2) specified.''
                            else ''Invalid number of FFT data points (0) specified.''))
      else Inr (map (\<lambda>j. (Re (a ! 0)
                          + (\<Sum>k = 1..<nat n div 2. 2 * Re (a ! k * cis (2 * pi * real j * real k / real_of_int n)))
                          + Re (a ! (nat n div 2)) * (- 1) ^ j) / real_of_int n)
                    [0..<nat n]))"

text \<open>
  \<^verbatim>\<open>np.fft.rfftfreq(n, d)\<close>: \<^verbatim>\<open>val = 1.0 / (n * d)\<close>, then \<^verbatim>\<open>arange(0, n // 2 + 1) * val\<close>,
  every operation in binary64: the integers are converted, each product and the quotient
  are rounded, and a product that is zero makes the division raise.
\<close>

definition rfftfreq :: "nat \<Rightarrow> real \<Rightarrow> py_error + real list" where
  "rfftfreq n d =
     (let nd = fl64 (fl64 (real n) * d) in
      if nd = 0 then Inl ZeroDivisionError
      else let val = fl64 (1 / nd)
           in Inr (map (\<lambda>k. fl64 (fl64 (real k) * val)) [0..<n div 2 + 1]))"

text \<open>\<^verbatim>\<open>attenuation[freqs > thr] *= g\<close>: an in-place multiplication under a boolean mask.\<close>

definition scale_above :: "real \<Rightarrow> real \<Rightarrow> real list \<Rightarrow> real list \<Rightarrow> real list" where
  "scale_above thr g freqs attenuation =
     map (\<lambda>(f, a). if f > thr then a * g else a) (zip freqs attenuation)"

definition attenuation_mask :: "real list \<Rightarrow> real list" where
  "attenuation_mask freqs =
     (let attenuation = replicate (length freqs) 1;
          attenuation = scale_above 1000 (6 / 10) freqs attenuation;
          attenuation = scale_above 3000 (3 / 10) freqs attenuation;
          attenuation = scale_above 6000 (1 / 10) freqs attenuation
      in attenuation)"

text \<open>
  The spectrum after line \<^verbatim>\<open>fft_signal = fft_signal * attenuation\<close>. The argument
  \<^verbatim>\<open>1 / sampling_rate\<close> is the quotient of two integers rounded to binary64.
\<close>

definition attenuated_spectrum :: "real list \<Rightarrow> nat \<Rightarrow> py_error + complex list" where
  "attenuated_spectrum signal sampling_rate =
     (case rfft signal of
        Inl e \<Rightarrow> Inl e
      | Inr fft_signal \<Rightarrow>
          if sampling_rate = 0 then Inl ZeroDivisionError
          else (case rfftfreq (length signal) (fl64 (1 / real sampling_rate)) of
                  Inl e \<Rightarrow> Inl e
                | Inr freqs \<Rightarrow>
                    Inr (map (\<lambda>(z, a). z * complex_of_real a)
                             (zip fft_signal (attenuation_mask freqs)))))"

definition apply_frequency_dependent_attenuation :: "real list \<Rightarrow> nat \<Rightarrow> py_error + real list" where
  "apply_frequency_dependent_attenuation signal sampling_rate =
     (case attenuated_spectrum signal sampling_rate of
        Inl e \<Rightarrow> Inl e
      | Inr fft_signal \<Rightarrow> irfft fft_signal)"

text \<open>
  The gain of a frequency as the specification tabulates it, band by band.
\<close>

definition band_gain :: "real \<Rightarrow> real" where
  "band_gain f =
     (if f \<le> 1000 then 1
      else if f \<le> 3000 then 6 / 10
      else if f \<le> 6000 then 18 / 100
      else 18 / 1000)"

text \<open>
  The frequency the program computes for bin \<open>k\<close> of a buffer of \<open>n\<close> samples, and the value
  of the mask at that bin (lines 113 to 117).
\<close>

definition computed_gain :: "nat \<Rightarrow> nat \<Rightarrow> nat \<Rightarrow> py_error + real \<times> real" where
  "computed_gain n sampling_rate k =
     (if sampling_rate = 0 then Inl ZeroDivisionError
      else (case rfftfreq n (fl64 (1 / real sampling_rate)) of
              Inl e \<Rightarrow> Inl e
            | Inr freqs \<Rightarrow> Inr (freqs ! k, attenuation_mask freqs ! k)))"

text \<open>The length of a result, an exception left as it is.\<close>

definition result_length :: "py_error + 'a list \<Rightarrow> py_error + nat" where
  "result_length r = (case r of Inl e \<Rightarrow> Inl e | Inr xs \<Rightarrow> Inr (length xs))"

section \<open>Path names\<close>

text \<open>
  The functions of \<^verbatim>\<open>os.path\<close> in their POSIX version. \<^verbatim>\<open>basename\<close> is what follows the
  last slash.
\<close>

definition rfind :: "string \<Rightarrow> char \<Rightarrow> int" where
  "rfind p c =
     (if c \<in> set p then int (length p) - 1 - int (length (takeWhile (\<lambda>x. x \<noteq> c) (rev p)))
      else - 1)"

definition basename :: "string \<Rightarrow> string" where
  "basename p = (let i = rfind p (CHR ''/'') + 1 in drop (nat i) p)"

text \<open>
  \<^verbatim>\<open>splitext\<close>: the extension starts at the last dot, unless that dot comes before the last
  slash or has only dots between the last slash and itself. The loop skips the leading dots.
\<close>

function splitext_loop :: "string \<Rightarrow> nat \<Rightarrow> nat \<Rightarrow> string \<times> string" where
  "splitext_loop p filenameIndex dotIndex =
     (if filenameIndex < dotIndex
      then (if take 1 (drop filenameIndex p) \<noteq> ''.''
            then (take dotIndex p, drop dotIndex p)
            else splitext_loop p (Suc filenameIndex) dotIndex)
      else (p, []))"
  by pat_completeness auto
termination
  by (relation "measure (\<lambda>(p, filenameIndex, dotIndex). dotIndex - filenameIndex)") auto

definition splitext :: "string \<Rightarrow> string \<times> string" where
  "splitext p =
     (let sepIndex = rfind p (CHR ''/'');
          dotIndex = rfind p (CHR ''.'')
      in if dotIndex > sepIndex then splitext_loop p (nat (sepIndex + 1)) (nat dotIndex)
         else (p, []))"

text \<open>\<^verbatim>\<open>os.path.join\<close> of a directory and one component.\<close>

definition path_join :: "string \<Rightarrow> string \<Rightarrow> string" where
  "path_join a b =
     (if take 1 b = ''/'' then b
      else if a = [] \<or> take 1 (rev a) = ''/'' then a @ b
      else a @ ''/'' @ b)"

text \<open>
  Lines 155 and 156 of the export loop:
  \<^verbatim>\<open>base_name, ext = os.path.splitext(os.path.basename(audio_path))\<close> and
  \<^verbatim>\<open>output_path = os.path.join(self.save_directory, f"{base_name}_SNHL_sim{ext}")\<close>.
\<close>

definition output_path :: "string \<Rightarrow> string \<Rightarrow> string" where
  "output_path save_dir audio_path =
     (case splitext (basename audio_path) of
        (base_name, ext) \<Rightarrow> path_join save_dir (base_name @ ''_SNHL_sim'' @ ext))"

text \<open>
  \<^verbatim>\<open>file_data.strip().split()\<close>: the words between runs of white space. A character
  stands for the code point of its number, so that strings hold code points below 256; the
  white space among them is what \<^verbatim>\<open>str.isspace\<close> accepts there. Code points from 256
  on are outside the model.
\<close>

definition is_space :: "char \<Rightarrow> bool" where
  "is_space c =
     (let n = (of_char c :: nat)
      in n = 32 \<or> (9 \<le> n \<and> n \<le> 13) \<or> (28 \<le> n \<and> n \<le> 31) \<or> n = 133 \<or> n = 160)"

definition py_strip :: "string \<Rightarrow> string" where
  "py_strip s = rev (dropWhile is_space (rev (dropWhile is_space s)))"

fun py_split :: "string \<Rightarrow> string \<Rightarrow> string list" where
  "py_split cur [] = (if cur = [] then [] else [cur])"
| "py_split cur (c # cs) =
     (if is_space c then (if cur = [] then py_split [] cs else cur # py_split [] cs)
      else py_split (cur @ [c]) cs)"

definition parse_file_paths :: "string \<Rightarrow> string list" where
  "parse_file_paths file_data = py_split [] (py_strip file_data)"

fun join_lines :: "string list \<Rightarrow> string" where
  "join_lines [] = []"
| "join_lines [x] = x"
| "join_lines (x # y # ys) = x @ [CHR 0x0A] @ join_lines (y # ys)"

section \<open>The application\<close>

text \<open>
  The world outside the program: which paths are files, what decoding a path gives (the
  samples and the native sampling rate, or an exception), and what writing a file does to the
  disk (the new disk, and the exception if one is raised). The disk is any type \<open>'d\<close>.
  Files and their decoding do not change during a session, decoded samples are finite, and
  the handlers run one after the other: the worker thread that the process button starts is
  modelled as running to its end before the next event.
\<close>

record 'd env =
  isfile :: "string \<Rightarrow> bool"
  librosa_load :: "string \<Rightarrow> py_error + (real list \<times> nat)"
  sf_write :: "'d \<Rightarrow> string \<Rightarrow> npfloat list \<Rightarrow> nat \<Rightarrow> 'd \<times> py_error option"

datatype dialog = ShowError string string | ShowInfo string string

text \<open>
  The fields of \<^verbatim>\<open>AudioProcessingApp\<close>, the widgets reduced to what the program sets on
  them (the list box entries, the state of the save button, the text of the status label,
  the message boxes shown so far), and the disk.
\<close>

record 'd app =
  audio_paths :: "string list"
  processed_audios :: "npfloat list list"
  sampling_rates :: "nat list"
  save_directory :: "string option"
  loading :: bool
  file_listbox :: "string list"
  save_button_enabled :: bool
  status_label :: string
  dialogs :: "dialog list"
  disk :: 'd

definition initial_app :: "'d \<Rightarrow> 'd app" where
  "initial_app d =
     \<lparr>audio_paths = [], processed_audios = [], sampling_rates = [], save_directory = None,
      loading = False, file_listbox = [], save_button_enabled = False, status_label = [],
      dialogs = [], disk = d\<rparr>"

fun add_dropped :: "'d env \<Rightarrow> string list \<Rightarrow> 'd app \<Rightarrow> 'd app" where
  "add_dropped env [] s = s"
| "add_dropped env (file # files) s =
     add_dropped env files
       (if file \<notin> set (audio_paths s) \<and> isfile env file
        then s\<lparr>audio_paths := audio_paths s @ [file],
               file_listbox := file_listbox s @ [basename file]\<rparr>
        else s)"

definition handle_file_drop :: "'d env \<Rightarrow> string \<Rightarrow> 'd app \<Rightarrow> 'd app" where
  "handle_file_drop env event_data s = add_dropped env (parse_file_paths event_data) s"

fun open_files :: "string list \<Rightarrow> 'd app \<Rightarrow> 'd app" where
  "open_files [] s = s"
| "open_files (file # files) s =
     open_files files
       (if file \<notin> set (audio_paths s)
        then s\<lparr>audio_paths := audio_paths s @ [file],
               file_listbox := file_listbox s @ [basename file]\<rparr>
        else s)"

text \<open>The body of the loop of \<^verbatim>\<open>process_audios\<close> up to the two appends.\<close>

definition process_one :: "'d env \<Rightarrow> string \<Rightarrow> py_error + (npfloat list \<times> nat)" where
  "process_one env audio_path =
     (case librosa_load env audio_path of
        Inl e \<Rightarrow> Inl e
      | Inr (audio, sr) \<Rightarrow>
          (case apply_frequency_dependent_attenuation audio sr of
             Inl e \<Rightarrow> Inl e
           | Inr attenuated_audio \<Rightarrow>
               (case apply_dynamic_range_compression attenuated_audio of
                  Inl e \<Rightarrow> Inl e
                | Inr processed_audio \<Rightarrow> Inr (processed_audio, sr))))"

text \<open>The loop: the state when it ends, and the exception that ended it, if any.\<close>

fun process_loop :: "'d env \<Rightarrow> string list \<Rightarrow> 'd app \<Rightarrow> 'd app \<times> py_error option" where
  "process_loop env [] s = (s, None)"
| "process_loop env (audio_path # rest) s =
     (case process_one env audio_path of
        Inl e \<Rightarrow> (s, Some e)
      | Inr (processed_audio, sr) \<Rightarrow>
          process_loop env rest
            (s\<lparr>processed_audios := processed_audios s @ [processed_audio],
               sampling_rates := sampling_rates s @ [sr]\<rparr>))"

definition process_audios :: "'d env \<Rightarrow> 'd app \<Rightarrow> 'd app" where
  "process_audios env s =
     (if audio_paths s = []
      then s\<lparr>dialogs := dialogs s @ [ShowError ''Error'' ''No audio files loaded.'']\<rparr>
      else
        let s1 = s\<lparr>loading := True, processed_audios := [], sampling_rates := []\<rparr>
        in case process_loop env (audio_paths s1) s1 of
             (s2, None) \<Rightarrow>
               s2\<lparr>save_button_enabled := True,
                  status_label := ''Audio files processed successfully.'',
                  loading := False\<rparr>
           | (s2, Some e) \<Rightarrow>
               s2\<lparr>dialogs := dialogs s2 @
                     [ShowError ''Processing Error'' (''An error occurred: '' @ str_of_error e)],
                  loading := False\<rparr>)"

definition choose_save_directory :: "string \<Rightarrow> 'd app \<Rightarrow> 'd app" where
  "choose_save_directory chosen s =
     (let s1 = s\<lparr>save_directory := Some chosen\<rparr>
      in if chosen \<noteq> [] then s1\<lparr>status_label := ''Save directory selected: '' @ chosen\<rparr> else s1)"

text \<open>
  The export loop over \<^verbatim>\<open>enumerate(self.audio_paths)\<close>: the disk and the list
  \<^verbatim>\<open>saved_files\<close> when it ends, and the exception that ended it, if any. Reading
  \<^verbatim>\<open>self.processed_audios[i]\<close> or \<^verbatim>\<open>self.sampling_rates[i]\<close> past the end raises.
\<close>

fun save_loop ::
  "'d env \<Rightarrow> string \<Rightarrow> npfloat list list \<Rightarrow> nat list \<Rightarrow> nat \<Rightarrow> string list \<Rightarrow> 'd \<Rightarrow> string list
   \<Rightarrow> 'd \<times> string list \<times> py_error option" where
  "save_loop env dir bufs rates i [] d saved_files = (d, saved_files, None)"
| "save_loop env dir bufs rates i (audio_path # rest) d saved_files =
     (let out = output_path dir audio_path in
      if length bufs \<le> i then (d, saved_files, Some IndexError)
      else if length rates \<le> i then (d, saved_files, Some IndexError)
      else (case sf_write env d out (bufs ! i) (rates ! i) of
              (d', Some e) \<Rightarrow> (d', saved_files, Some e)
            | (d', None) \<Rightarrow> save_loop env dir bufs rates (Suc i) rest d' (saved_files @ [out])))"

definition save_audios :: "'d env \<Rightarrow> 'd app \<Rightarrow> 'd app" where
  "save_audios env s =
     (if processed_audios s = [] \<or> sampling_rates s = []
      then s\<lparr>dialogs := dialogs s @ [ShowError ''Error'' ''No processed audio to save.'']\<rparr>
      else (case save_directory s of
              None \<Rightarrow> s\<lparr>dialogs := dialogs s @ [ShowError ''Error'' ''No save directory selected.'']\<rparr>
            | Some dir \<Rightarrow>
                if dir = []
                then s\<lparr>dialogs := dialogs s @ [ShowError ''Error'' ''No save directory selected.'']\<rparr>
                else (case save_loop env dir (processed_audios s) (sampling_rates s) 0
                             (audio_paths s) (disk s) [] of
                        (d, saved_files, None) \<Rightarrow>
                          s\<lparr>disk := d,
                            status_label := ''Processed files saved:'' @ [CHR 0x0A] @ join_lines saved_files,
                            dialogs := dialogs s @
                              [ShowInfo ''Success'' ''All processed files have been saved.'']\<rparr>
                      | (d, saved_files, Some e) \<Rightarrow>
                          s\<lparr>disk := d,
                            dialogs := dialogs s @
                              [ShowError ''Save Error''
                                 (''An error occurred while saving the files: '' @ str_of_error e)]\<rparr>)))"

text \<open>
  What the user can do to a session. The save button is created disabled, and a disabled
  button does not call its command. A session is here a sequence of events of which each is
  handled to its end before the next: the source runs \<^verbatim>\<open>process_audios\<close> in a thread of
  its own, and a run that overlaps another handler is outside this model.
\<close>

datatype event =
    FileDrop string
  | UploadClicked "string list"
  | ProcessClicked
  | ChooseDirClicked string
  | SaveClicked

fun handle :: "'d env \<Rightarrow> 'd app \<Rightarrow> event \<Rightarrow> 'd app" where
  "handle env s (FileDrop event_data) = handle_file_drop env event_data s"
| "handle env s (UploadClicked files) = open_files files s"
| "handle env s ProcessClicked = process_audios env s"
| "handle env s (ChooseDirClicked chosen) = choose_save_directory chosen s"
| "handle env s SaveClicked = (if save_button_enabled s then save_audios env s else s)"

definition run :: "'d env \<Rightarrow> 'd \<Rightarrow> event list \<Rightarrow> 'd app" where
  "run env d events = foldl (handle env) (initial_app d) events"

section \<open>Auxiliary notions for the proofs\<close>




text \<open>
  A small world for the concrete runs: three files that decode (the second to a single
  sample), and a writer that appends the file to a list of written files, but cannot encode
  the container of a name that ends in \<^verbatim>\<open>.mp3\<close>.
\<close>

definition studio :: "(string \<times> npfloat list \<times> nat) list env" where
  "studio =
     \<lparr>isfile = (\<lambda>p. p = ''/in/a.wav'' \<or> p = ''/in/b.wav'' \<or> p = ''/in/c.mp3''),
      librosa_load = (\<lambda>p.
         if p = ''/in/a.wav'' then Inr ([1, 0, - 1, 0], 8000)
         else if p = ''/in/b.wav'' then Inr ([1 / 2], 8000)
         else if p = ''/in/c.mp3'' then Inr ([0, 1 / 4], 44100)
         else Inl (LibraryError [])),
      sf_write = (\<lambda>d out buf sr.
         if drop (length out - 4) out = ''.mp3''
         then (d, Some (LibraryError ''Format not recognised.''))
         else (d @ [(out, buf, sr)], None))\<rparr>"

text \<open>Event sequences of concrete sessions in that world.\<close>

definition first_batch :: "event list" where
  "first_batch = [UploadClicked [''/in/a.wav''], ProcessClicked]"


definition grown_session :: "event list" where
  "grown_session = first_batch @ [UploadClicked [''/in/c.mp3'']]"

text \<open>
  The export as the specification words it: the triples of path, buffer and rate are taken
  in order, each is written under its derived name, and the first failure ends the export.
\<close>

fun export_in_order ::
  "'d env \<Rightarrow> string \<Rightarrow> (string \<times> npfloat list \<times> nat) list \<Rightarrow> 'd \<Rightarrow> string list
   \<Rightarrow> 'd \<times> string list \<times> py_error option" where
  "export_in_order env dir [] d saved_files = (d, saved_files, None)"
| "export_in_order env dir ((audio_path, buf, rate) # rest) d saved_files =
     (case sf_write env d (output_path dir audio_path) buf rate of
        (d', Some e) \<Rightarrow> (d', saved_files, Some e)
      | (d', None) \<Rightarrow> export_in_order env dir rest d' (saved_files @ [output_path dir audio_path]))"

section \<open>Facts about rounding\<close>

lemma powr_powi: "(2::real) powr of_int k = 2 powi k"
  by (simp add: powr_real_of_int' )

lemma fl64_at:
  assumes "2 powi e \<le> \<bar>x\<bar>" "\<bar>x\<bar> < 2 powi (e + 1)" "- 1022 \<le> e"
  shows "fl64 x = of_int (round_half_even (x / 2 powi (e - 52))) * 2 powi (e - 52)"
proof -
  have "(0::real) < 2 powi e" by (simp add: zero_less_power_int)
  then have pos: "0 < \<bar>x\<bar>" using assms(1) by linarith
  have "\<lfloor>log 2 \<bar>x\<bar>\<rfloor> = e"
    using assms(1,2) pos by (simp add: floor_log_eq_powr_iff powr_powi del: of_int_add)
  then show ?thesis using pos assms(3) by (simp add: fl64_def Let_def max_def)
qed

lemma round_half_even_ge_floor: "\<lfloor>m\<rfloor> \<le> round_half_even m"
  by (simp add: round_half_even_def Let_def)

lemma round_half_even_int: "round_half_even (of_int k) = k"
  by (simp add: round_half_even_def Let_def)

lemma fl64_lower:
  assumes "2 powi a \<le> x" "- 1022 \<le> a"
  shows "2 powi a \<le> fl64 x"
proof -
  have "(0::real) < 2 powi a" by (simp add: zero_less_power_int)
  then have xpos: "0 < x" using assms(1) by linarith
  define e where "e = \<lfloor>log 2 x\<rfloor>"
  have e: "2 powi e \<le> x" "x < 2 powi (e + 1)"
    using xpos floor_log_eq_powr_iff[of x 2 e] unfolding e_def
    by (simp_all add: powr_powi del: of_int_add)
  have ae: "a \<le> e"
  proof (rule ccontr)
    assume "\<not> a \<le> e"
    then have "e + 1 \<le> a" by simp
    then have "(2::real) powi (e + 1) \<le> 2 powi a" by (intro power_int_increasing) simp_all
    then show False using e(2) assms(1) by linarith
  qed
  have ee: "- 1022 \<le> e" using ae assms(2) by simp
  let ?ulp = "(2::real) powi (e - 52)"
  have up: "0 < ?ulp" by (simp add: zero_less_power_int)
  have f: "fl64 x = of_int (round_half_even (x / ?ulp)) * ?ulp"
    using fl64_at[of e x] e xpos ee by simp
  have "(2::real) powi e = 2 powi 52 * ?ulp"
    using power_int_add[of "2::real" 52 "e - 52"] by simp
  then have "2 powi 52 \<le> x / ?ulp" using e(1) up by (simp add: pos_le_divide_eq)
  then have "of_int (2 ^ 52) \<le> x / ?ulp" by simp
  then have "(2 ^ 52 :: int) \<le> \<lfloor>x / ?ulp\<rfloor>" by (subst le_floor_iff)
  then have "(2 ^ 52 :: int) \<le> round_half_even (x / ?ulp)"
    using round_half_even_ge_floor[of "x / ?ulp"] by linarith
  then have "(2 ^ 52 :: real) \<le> of_int (round_half_even (x / ?ulp))"
    by (metis of_int_le_iff of_int_numeral of_int_power)
  then have "2 powi 52 * ?ulp \<le> fl64 x" using up f by (simp add: mult_right_mono)
  then have "2 powi e \<le> fl64 x" using \<open>(2::real) powi e = 2 powi 52 * ?ulp\<close> by simp
  moreover have "(2::real) powi a \<le> 2 powi e" using ae by (intro power_int_increasing) simp_all
  ultimately show ?thesis by linarith
qed

section \<open>Facts about the compression curve\<close>

lemma curve_abs: "0 \<le> c \<Longrightarrow> \<bar>sgn x * ln (1 + \<bar>x\<bar>) * c\<bar> = ln (1 + \<bar>x\<bar>) * c"
  for x c :: real
  by (cases "x = 0") (simp_all add: abs_mult)

lemma curve_pos: "x \<noteq> 0 \<Longrightarrow> 0 < c \<Longrightarrow> 0 < ln (1 + \<bar>x\<bar>) * c"
  for x c :: real
  by simp

lemma curve_sgn: "0 < c \<Longrightarrow> sgn (sgn x * ln (1 + \<bar>x\<bar>) * c) = sgn x"
  for x c :: real
  by (cases "x = 0") (simp_all add: sgn_mult)

lemma Max_scaled_image:
  fixes f :: "'a \<Rightarrow> real"
  assumes "finite A" "A \<noteq> {}" "0 \<le> c"
  shows "Max ((\<lambda>x. f x * c) ` A) = Max (f ` A) * c"
proof (rule Max_eqI)
  show "finite ((\<lambda>x. f x * c) ` A)" using assms by simp
next
  fix y assume "y \<in> (\<lambda>x. f x * c) ` A"
  then obtain x where x: "x \<in> A" "y = f x * c" by auto
  have "f x \<le> Max (f ` A)" using assms x by simp
  then show "y \<le> Max (f ` A) * c" using x assms by (simp add: mult_right_mono)
next
  have "Max (f ` A) \<in> f ` A" using assms by (intro Max_in) simp_all
  then show "Max (f ` A) * c \<in> (\<lambda>x. f x * c) ` A" by auto
qed

lemma peak_with_gain:
  assumes "signal \<noteq> []" "0 \<le> c"
  shows "Max (set (map abs (compressed_with_gain c signal)))
         = Max ((\<lambda>x. ln (1 + \<bar>x\<bar>)) ` set signal) * c"
proof -
  have "set (map abs (compressed_with_gain c signal)) = (\<lambda>x. ln (1 + \<bar>x\<bar>) * c) ` set signal"
    using assms by (auto simp: compressed_with_gain_def curve_abs image_iff)
  then show ?thesis using assms by (simp add: Max_scaled_image)
qed

lemma log_peak_pos:
  fixes signal :: "real list"
  assumes "x \<in> set signal" "x \<noteq> 0"
  shows "0 < Max ((\<lambda>x. ln (1 + \<bar>x\<bar>)) ` set signal)"
proof -
  have "ln (1 + \<bar>x\<bar>) \<le> Max ((\<lambda>x. ln (1 + \<bar>x\<bar>)) ` set signal)"
    using assms by simp
  moreover have "1 < 1 + \<bar>x\<bar>" using assms(2) by simp
  then have "0 < ln (1 + \<bar>x\<bar>)" by (rule ln_gt_zero)
  ultimately show ?thesis by linarith
qed

lemma compressed_signal_gain: "compressed_signal signal = compressed_with_gain (12 / 10) signal"
  by (simp add: compressed_signal_def compressed_with_gain_def)

lemma compression_gain_12: "apply_dynamic_range_compression signal = compression_with_gain (12 / 10) signal"
  by (simp add: apply_dynamic_range_compression_def compression_with_gain_def compressed_signal_gain)

text \<open>With a positive gain and a non-silent buffer the result is the gain-free normalised curve.\<close>

lemma compression_with_gain_normal:
  assumes "x \<in> set signal" "x \<noteq> 0" "0 < c"
  shows "compression_with_gain c signal =
         Inr (map (\<lambda>x. Finite (sgn x * ln (1 + \<bar>x\<bar>) / Max ((\<lambda>x. ln (1 + \<bar>x\<bar>)) ` set signal))) signal)"
proof -
  let ?M = "Max ((\<lambda>x. ln (1 + \<bar>x\<bar>)) ` set signal)"
  have ne: "signal \<noteq> []" using assms by auto
  have M: "0 < ?M" using assms(1,2) by (rule log_peak_pos)
  have peak: "np_max (map abs (compressed_with_gain c signal)) = Inr (?M * c)"
    using ne assms(3) peak_with_gain[of signal c] by (simp add: np_max_def compressed_with_gain_def)
  have "map (\<lambda>y. np_divide y (?M * c)) (compressed_with_gain c signal)
        = map (\<lambda>x. Finite (sgn x * ln (1 + \<bar>x\<bar>) / ?M)) signal"
    using M assms(3) by (simp add: compressed_with_gain_def np_divide_def)
  then show ?thesis unfolding compression_with_gain_def Let_def peak by simp
qed

lemma compress_all_zero:
  assumes "signal \<noteq> []" "\<forall>x\<in>set signal. x = 0"
  shows "apply_dynamic_range_compression signal = Inr (replicate (length signal) NaN)"
proof -
  have cs: "compressed_signal signal = replicate (length signal) 0"
    using assms(2) by (simp add: compressed_signal_def map_replicate_const[symmetric] cong: map_cong)
  have "set (map abs (replicate (length signal) (0::real))) = {0}" using assms(1) by auto
  then have "np_max (map abs (compressed_signal signal)) = Inr 0"
    using assms(1) by (simp add: np_max_def cs)
  then show ?thesis
    by (simp add: apply_dynamic_range_compression_def cs np_divide_def)
qed

text \<open>
  C4. For every buffer with at least one non-zero sample the compression returns finite
  samples, as many as the input has, whose largest absolute value is exactly 1, and wherever
  the input sample is non-zero the output sample has the sign of the input sample.
\<close>
theorem compress_peak_and_sign:
  assumes "\<exists>x\<in>set signal. x \<noteq> 0"
  shows "\<exists>out. apply_dynamic_range_compression signal = Inr (map Finite out)
           \<and> length out = length signal
           \<and> Max (set (map abs out)) = 1
           \<and> (\<forall>i<length signal. signal ! i \<noteq> 0 \<longrightarrow> sgn (out ! i) = sgn (signal ! i))"
proof -
  let ?L = "\<lambda>x::real. ln (1 + \<bar>x\<bar>)"
  let ?M = "Max (?L ` set signal)"
  let ?out = "map (\<lambda>x. sgn x * ?L x / ?M) signal"
  from assms obtain x where x: "x \<in> set signal" "x \<noteq> 0" by blast
  have M: "0 < ?M" using x by (rule log_peak_pos)
  have res: "apply_dynamic_range_compression signal = Inr (map Finite ?out)"
    using compression_with_gain_normal[OF x, of "12 / 10"]
    by (simp add: compression_gain_12 comp_def)
  have abs_out: "set (map abs ?out) = (\<lambda>x. ?L x * (1 / ?M)) ` set signal"
    using M curve_abs[of "1 / ?M"] by (auto simp: image_iff abs_mult abs_sgn_eq)
  have "Max (set (map abs ?out)) = ?M * (1 / ?M)"
    unfolding abs_out using x M by (intro Max_scaled_image) auto
  then have peak: "Max (set (map abs ?out)) = 1" using M by simp
  have sign: "\<forall>i<length signal. signal ! i \<noteq> 0 \<longrightarrow> sgn (?out ! i) = sgn (signal ! i)"
    using M curve_sgn[of "1 / ?M"] by simp
  show ?thesis using res peak sign by (intro exI[of _ ?out]) simp
qed

theorem compress_peak_and_sign_witness:
  "\<exists>out. apply_dynamic_range_compression [1 / 2, - 1, 0] = Inr (map Finite out)
           \<and> length out = 3
           \<and> Max (set (map abs out)) = 1
           \<and> sgn (out ! 0) = 1 \<and> sgn (out ! 1) = - 1"
proof -
  have h: "\<exists>x\<in>set [1 / 2, - 1, 0::real]. x \<noteq> 0" by simp
  from compress_peak_and_sign[OF h] obtain out where
    o: "apply_dynamic_range_compression [1 / 2, - 1, 0] = Inr (map Finite out)"
       "length out = 3" "Max (set (map abs out)) = 1"
       "\<forall>i<3. [1 / 2, - 1, 0::real] ! i \<noteq> 0 \<longrightarrow> sgn (out ! i) = sgn ([1 / 2, - 1, 0::real] ! i)"
    by auto
  from o(4) have "sgn (out ! 0) = 1" by (auto dest: spec[of _ 0])
  moreover from o(4) have "sgn (out ! 1) = - 1" by (auto dest: spec[of _ 1])
  ultimately show ?thesis using o by blast
qed

lemma peak_nonzero_has_sample:
  assumes "compressed_peak signal \<noteq> 0"
  shows "\<exists>x\<in>set signal. x \<noteq> 0"
proof (rule ccontr)
  assume "\<not> (\<exists>x\<in>set signal. x \<noteq> 0)"
  then have z: "\<forall>x\<in>set signal. x = 0" by blast
  show False
  proof (cases "signal = []")
    case True
    then show False using assms by (simp add: compressed_peak_def np_max_def compressed_signal_def)
  next
    case False
    have cs: "compressed_signal signal = replicate (length signal) 0"
      using z by (simp add: compressed_signal_def map_replicate_const[symmetric] cong: map_cong)
    have "set (map abs (replicate (length signal) (0::real))) = {0}" using False by auto
    then show False using assms False by (simp add: compressed_peak_def np_max_def cs)
  qed
qed

text \<open>
  C10. Whenever the compressed intermediate has a non-zero peak, the compression with the
  factor 1.2 replaced by any positive constant returns what the compression of the program
  returns: the factor cancels in the division by the peak.
\<close>
theorem compression_gain_cancels:
  assumes "compressed_peak signal \<noteq> 0" "0 < c"
  shows "compression_with_gain c signal = apply_dynamic_range_compression signal"
proof -
  from peak_nonzero_has_sample[OF assms(1)] obtain x where x: "x \<in> set signal" "x \<noteq> 0" by blast
  show ?thesis
    using compression_with_gain_normal[OF x assms(2)] compression_with_gain_normal[OF x, of "12 / 10"]
    by (simp add: compression_gain_12)
qed

theorem compression_gain_cancels_witness:
  "compressed_peak [1, - 1 / 2] \<noteq> 0 \<and> (0::real) < 5
   \<and> compression_with_gain 5 [1, - 1 / 2] = apply_dynamic_range_compression [1, - 1 / 2]"
proof -
  have "ln (3 / 2 :: real) > 0" by simp
  then have h: "compressed_peak [1, - 1 / 2] \<noteq> 0"
    by (simp add: compressed_peak_def np_max_def compressed_signal_def max_def)
  have c: "(0::real) < 5" by simp
  show ?thesis using h c compression_gain_cancels[OF h c] by simp
qed

section \<open>Facts about the attenuation\<close>

lemma rfft_ok:
  "signal \<noteq> [] \<Longrightarrow> \<exists>F. rfft signal = Inr F \<and> length F = length signal div 2 + 1"
  by (cases signal) (simp_all add: rfft_def Let_def)

lemma rate_reciprocal_lower:
  assumes "0 < sampling_rate" "sampling_rate \<le> 2 ^ 53"
  shows "2 powi (- 53) \<le> fl64 (1 / real sampling_rate)"
proof -
  have "real sampling_rate \<le> 2 ^ 53"
    using assms(2) by (metis of_nat_le_iff of_nat_numeral of_nat_power)
  then have "1 / 2 ^ 53 \<le> 1 / real sampling_rate"
    using assms(1) by (intro divide_left_mono) simp_all
  then have "2 powi (- 53) \<le> 1 / real sampling_rate"
    by (simp add: power_int_minus_divide)
  then show ?thesis by (rule fl64_lower) simp
qed

lemma rfftfreq_ok:
  assumes "0 < n" "2 powi (- 53) \<le> d"
  shows "rfftfreq n d
         = Inr (map (\<lambda>k. fl64 (fl64 (real k) * fl64 (1 / fl64 (fl64 (real n) * d))))
                    [0..<n div 2 + 1])"
proof -
  have "2 powi 0 \<le> real n" using assms(1) by simp
  then have "2 powi 0 \<le> fl64 (real n)" by (rule fl64_lower) simp
  then have n1: "1 \<le> fl64 (real n)" by simp
  have dpos: "(0::real) < 2 powi (- 53)" by (simp add: zero_less_power_int)
  have "1 * 2 powi (- 53) \<le> fl64 (real n) * d"
    using n1 assms(2) dpos by (intro mult_mono) simp_all
  then have "2 powi (- 53) \<le> fl64 (real n) * d" by simp
  then have "2 powi (- 53) \<le> fl64 (fl64 (real n) * d)" by (rule fl64_lower) simp
  then have "fl64 (fl64 (real n) * d) \<noteq> 0" using dpos by linarith
  then show ?thesis by (simp add: rfftfreq_def Let_def)
qed

lemma length_scale_above:
  "length (scale_above thr g freqs att) = min (length freqs) (length att)"
  by (simp add: scale_above_def)

lemma nth_scale_above:
  "k < length freqs \<Longrightarrow> k < length att \<Longrightarrow>
   scale_above thr g freqs att ! k = (if freqs ! k > thr then att ! k * g else att ! k)"
  by (simp add: scale_above_def)

lemma length_attenuation_mask: "length (attenuation_mask freqs) = length freqs"
  by (simp add: attenuation_mask_def Let_def length_scale_above)

lemma nth_attenuation_mask:
  assumes "k < length freqs"
  shows "attenuation_mask freqs ! k = band_gain (freqs ! k)"
  using assms
  by (simp add: attenuation_mask_def Let_def nth_scale_above length_scale_above band_gain_def)

lemma attenuated_spectrum_ok:
  assumes "signal \<noteq> []" "0 < sampling_rate" "rfft signal = Inr F"
      and "rfftfreq (length signal) (fl64 (1 / real sampling_rate)) = Inr freqs"
  shows "attenuated_spectrum signal sampling_rate
         = Inr (map (\<lambda>(z, a). z * complex_of_real a) (zip F (attenuation_mask freqs)))"
  using assms by (simp add: attenuated_spectrum_def)

text \<open>
  C3, amended. For a non-empty buffer of at most \<open>2 ^ 53\<close> samples and a positive sampling
  rate of at most \<open>2 ^ 53\<close>, the mask holds at bin \<open>k\<close> the cumulative gain of the bands
  (1 up to 1000 Hz, 0.6 up to 3000 Hz, 0.18 up to 6000 Hz, 0.018 above) of the frequency
  that the program computes for the bin in binary64, the rounded product of \<open>k\<close> and the
  rounded reciprocal of the rounded product of \<open>N\<close> and the rounded reciprocal of the rate;
  and the attenuated spectrum is bin \<open>k\<close> of the transform multiplied by that gain.
\<close>
theorem attenuation_gain_bands:
  assumes "signal \<noteq> []" "length signal \<le> 2 ^ 53"
      and "0 < sampling_rate" "sampling_rate \<le> 2 ^ 53"
      and "k \<le> length signal div 2"
  shows "\<exists>fft_signal freqs spectrum.
           rfft signal = Inr fft_signal
         \<and> rfftfreq (length signal) (fl64 (1 / real sampling_rate)) = Inr freqs
         \<and> attenuated_spectrum signal sampling_rate = Inr spectrum
         \<and> length fft_signal = length signal div 2 + 1
         \<and> length freqs = length fft_signal
         \<and> length spectrum = length fft_signal
         \<and> freqs ! k
             = fl64 (fl64 (real k)
                 * fl64 (1 / fl64 (fl64 (real (length signal)) * fl64 (1 / real sampling_rate))))
         \<and> attenuation_mask freqs ! k = band_gain (freqs ! k)
         \<and> spectrum ! k = fft_signal ! k * complex_of_real (band_gain (freqs ! k))"
proof -
  let ?n = "length signal"
  let ?d = "fl64 (1 / real sampling_rate)"
  let ?freqs = "map (\<lambda>k. fl64 (fl64 (real k) * fl64 (1 / fl64 (fl64 (real ?n) * ?d))))
                    [0..<?n div 2 + 1]"
  from rfft_ok[OF assms(1)] obtain F where F: "rfft signal = Inr F" "length F = ?n div 2 + 1"
    by blast
  have n: "0 < ?n" using assms(1) by simp
  have d: "2 powi (- 53) \<le> ?d" using assms(3,4) by (rule rate_reciprocal_lower)
  have fr: "rfftfreq ?n ?d = Inr ?freqs" using n d by (rule rfftfreq_ok)
  let ?S = "map (\<lambda>(z, a). z * complex_of_real a) (zip F (attenuation_mask ?freqs))"
  have S: "attenuated_spectrum signal sampling_rate = Inr ?S"
    using assms(1,3) F(1) fr by (rule attenuated_spectrum_ok)
  have k: "k < length ?freqs" using assms(5) by simp
  have fk: "?freqs ! k = fl64 (fl64 (real k) * fl64 (1 / fl64 (fl64 (real ?n) * ?d)))"
    using assms(5) by (simp add: nth_append less_Suc_eq_le)
  have mk: "attenuation_mask ?freqs ! k = band_gain (?freqs ! k)"
    using k by (rule nth_attenuation_mask)
  have lS: "length ?S = length F" using F(2) by (simp add: length_attenuation_mask)
  have Sk: "?S ! k = F ! k * complex_of_real (band_gain (?freqs ! k))"
    using k F(2) mk by (simp add: length_attenuation_mask)
  show ?thesis
    using F fr S fk mk lS Sk by (intro exI[of _ F] exI[of _ ?freqs] exI[of _ ?S]) simp
qed

lemma irfft_length:
  assumes "2 \<le> length a"
  shows "\<exists>ys. irfft a = Inr ys \<and> length ys = 2 * (length a - 1)"
proof -
  have "\<not> (int (length a) - 1) * 2 < 1" using assms by simp
  moreover have "nat ((int (length a) - 1) * 2) = 2 * (length a - 1)" using assms by simp
  ultimately show ?thesis by (simp add: irfft_def Let_def)
qed

lemma attenuated_spectrum_length:
  assumes "signal \<noteq> []" "0 < sampling_rate" "sampling_rate \<le> 2 ^ 53"
  shows "\<exists>S. attenuated_spectrum signal sampling_rate = Inr S \<and> length S = length signal div 2 + 1"
proof -
  from rfft_ok[OF assms(1)] obtain F where F: "rfft signal = Inr F" "length F = length signal div 2 + 1"
    by blast
  have n: "0 < length signal" using assms(1) by simp
  have d: "2 powi (- 53) \<le> fl64 (1 / real sampling_rate)"
    using assms(2,3) by (rule rate_reciprocal_lower)
  show ?thesis
    using attenuated_spectrum_ok[OF assms(1,2) F(1) rfftfreq_ok[OF n d]] F(2)
    by (simp add: length_attenuation_mask)
qed

lemma attenuation_length:
  assumes "2 \<le> length signal" "0 < sampling_rate" "sampling_rate \<le> 2 ^ 53"
  shows "result_length (apply_frequency_dependent_attenuation signal sampling_rate)
         = Inr (2 * (length signal div 2))"
proof -
  have ne: "signal \<noteq> []" using assms(1) by auto
  from attenuated_spectrum_length[OF ne assms(2,3)] obtain S where
    S: "attenuated_spectrum signal sampling_rate = Inr S" "length S = length signal div 2 + 1"
    by blast
  have "2 \<le> length S" using S(2) assms(1) by simp
  from irfft_length[OF this] obtain ys where ys: "irfft S = Inr ys" "length ys = 2 * (length S - 1)"
    by blast
  show ?thesis
    using S ys by (simp add: apply_frequency_dependent_attenuation_def result_length_def)
qed

lemma attenuation_single_sample:
  assumes "0 < sampling_rate" "sampling_rate \<le> 2 ^ 53"
  shows "apply_frequency_dependent_attenuation [x] sampling_rate
         = Inl (ValueError ''Invalid number of FFT data points (0) specified.'')"
proof -
  from attenuated_spectrum_length[of "[x]" sampling_rate] assms obtain S where
    S: "attenuated_spectrum [x] sampling_rate = Inr S" "length S = 1"
    by auto
  show ?thesis
    using S by (simp add: apply_frequency_dependent_attenuation_def irfft_def Let_def)
qed

lemma attenuation_silent_pair:
  "apply_frequency_dependent_attenuation [0, 0] 44100 = Inr [0, 0]"
proof -
  have d: "2 powi (- 53) \<le> fl64 (1 / real (44100::nat))"
    by (rule rate_reciprocal_lower) simp_all
  have fr: "rfftfreq (length [0, 0 :: real]) (fl64 (1 / real (44100::nat)))
            = Inr (map (\<lambda>k. fl64 (fl64 (real k)
                     * fl64 (1 / fl64 (fl64 (real (length [0, 0 :: real])) * fl64 (1 / real (44100::nat))))))
                    [0..<length [0, 0 :: real] div 2 + 1])"
    using d by (intro rfftfreq_ok) simp_all
  have sp: "attenuated_spectrum [0, 0] 44100 = Inr [0, 0]"
    unfolding attenuated_spectrum_def fr
    by (simp add: rfft_def Let_def attenuation_mask_def scale_above_def upt_rec numeral_2_eq_2)
  show ?thesis
    unfolding apply_frequency_dependent_attenuation_def sp
    by (simp add: irfft_def Let_def upt_rec numeral_2_eq_2)
qed

text \<open>
  C1. The claim: for a silent buffer the compression returns the all-zero buffer unchanged,
  the division by the peak being guarded. The code divides without a guard: a silent buffer
  of two samples leaves the attenuation as it entered, and in the compression every sample
  is \<open>0 / 0\<close>: the result is a buffer of NaN.
\<close>
theorem compress_silent_is_nan:
  "apply_frequency_dependent_attenuation [0, 0] 44100 = Inr [0, 0]
   \<and> apply_dynamic_range_compression [0, 0] = Inr [NaN, NaN]"
proof -
  have "apply_frequency_dependent_attenuation [0, 0] 44100 = Inr [0, 0]"
    by (rule attenuation_silent_pair)
  moreover have "apply_dynamic_range_compression [0, 0] = Inr [NaN, NaN]"
    by (simp add: apply_dynamic_range_compression_def compressed_signal_def np_max_def np_divide_def)
  ultimately show ?thesis by simp
qed

text \<open>
  C2. The claim: a buffer of length N comes back with length N. The inverse transform is
  called without a length and returns \<open>2 * (m - 1)\<close> samples for \<open>m\<close> bins: the buffer
  of three samples comes back with two, and for a buffer of one sample it raises.
\<close>
theorem attenuation_odd_length_shrinks:
  "result_length (apply_frequency_dependent_attenuation [1, 2, 3] 44100) = Inr 2
   \<and> apply_frequency_dependent_attenuation [1] 44100
       = Inl (ValueError ''Invalid number of FFT data points (0) specified.'')"
  using attenuation_length[of "[1, 2, 3]" 44100] attenuation_single_sample[of 44100 1] by simp

lemma fl64_rate_8000: "fl64 (1 / 8000) = 4611686018427388 / 2 ^ 65"
  using fl64_at[of "- 13" "1 / 8000"]
  by (simp add: round_half_even_def Let_def power_int_minus_divide)

lemma fl64_small_integers: "fl64 1 = 1" "fl64 4 = 4" "fl64 11 = 11" "fl64 88 = 88"
  using fl64_at[of 0 1] fl64_at[of 2 4] fl64_at[of 3 11] fl64_at[of 6 88]
  by (simp_all add: round_half_even_def Let_def power_int_minus_divide)

lemma frequency_4_8000_1:
  "fl64 (fl64 1 * fl64 (1 / fl64 (fl64 4 * fl64 (1 / 8000)))) = 2000"
proof -
  have nd: "fl64 (4 * (4611686018427388 / 2 ^ 65)) = 4611686018427388 / 2 ^ 63"
    using fl64_at[of "- 11" "4 * (4611686018427388 / 2 ^ 65)"]
    by (simp add: round_half_even_def Let_def power_int_minus_divide)
  have val: "fl64 (1 / (4611686018427388 / 2 ^ 63)) = 2000"
    using fl64_at[of 10 "1 / (4611686018427388 / 2 ^ 63)"]
    by (simp add: round_half_even_def Let_def power_int_minus_divide)
  have f: "fl64 (1 * 2000) = 2000"
    using fl64_at[of 10 2000]
    by (simp add: round_half_even_def Let_def power_int_minus_divide)
  show ?thesis using f by (simp only: fl64_small_integers fl64_rate_8000 nd val)
qed

lemma frequency_88_8000_11:
  "fl64 (fl64 11 * fl64 (1 / fl64 (fl64 88 * fl64 (1 / 8000)))) = 8796093022208001 / 2 ^ 43"
proof -
  have nd: "fl64 (88 * (4611686018427388 / 2 ^ 65)) = 6341068275337658 / 2 ^ 59"
    using fl64_at[of "- 7" "88 * (4611686018427388 / 2 ^ 65)"]
    by (simp add: round_half_even_def Let_def power_int_minus_divide)
  have val: "fl64 (1 / (6341068275337658 / 2 ^ 59)) = 6397158561605819 / 2 ^ 46"
    using fl64_at[of 6 "1 / (6341068275337658 / 2 ^ 59)"]
    by (simp add: round_half_even_def Let_def power_int_minus_divide)
  have f: "fl64 (11 * (6397158561605819 / 2 ^ 46)) = 8796093022208001 / 2 ^ 43"
    using fl64_at[of 9 "11 * (6397158561605819 / 2 ^ 46)"]
    by (simp add: round_half_even_def Let_def power_int_minus_divide)
  show ?thesis using f by (simp only: fl64_small_integers fl64_rate_8000 nd val)
qed

text \<open>
  C3, as stated, fails. Bin 11 of a buffer of 88 samples at 8000 Hz has the frequency
  \<open>11 * 8000 / 88 = 1000\<close>, in the band of gain 1. The program computes for it the double
  next above 1000, and the mask holds 0.6 there.
\<close>

theorem band_edge_rounds_up_counterexample:
  "band_gain (11 * 8000 / 88) = 1
   \<and> computed_gain 88 8000 11 = Inr (8796093022208001 / 2 ^ 43, 6 / 10)"
proof -
  have d: "2 powi (- 53) \<le> fl64 (1 / real (8000::nat))"
    by (rule rate_reciprocal_lower) simp_all
  have n: "0 < (88::nat)" by simp
  note fr = rfftfreq_ok[OF n d]
  let ?freqs = "map (\<lambda>k. fl64 (fl64 (real k) * fl64 (1 / fl64 (fl64 (real (88::nat)) * fl64 (1 / real (8000::nat))))))
                    [0..<88 div 2 + 1]"
  have f: "?freqs ! 11 = 8796093022208001 / 2 ^ 43"
    using frequency_88_8000_11 by simp
  have "attenuation_mask ?freqs ! 11 = band_gain (?freqs ! 11)"
    by (rule nth_attenuation_mask) simp
  then have m: "attenuation_mask ?freqs ! 11 = 6 / 10"
    unfolding f by (simp add: band_gain_def)
  have "computed_gain 88 8000 11 = Inr (?freqs ! 11, attenuation_mask ?freqs ! 11)"
    unfolding computed_gain_def fr by simp
  then have "computed_gain 88 8000 11 = Inr (8796093022208001 / 2 ^ 43, 6 / 10)"
    unfolding f m .
  moreover have "band_gain (11 * 8000 / 88) = 1" by (simp add: band_gain_def)
  ultimately show ?thesis by simp
qed

theorem attenuation_gain_bands_witness:
  "\<exists>fft_signal freqs spectrum.
           rfft [1, 0, - 1, 0] = Inr fft_signal
         \<and> attenuated_spectrum [1, 0, - 1, 0] 8000 = Inr spectrum
         \<and> freqs ! 1 = 2000
         \<and> attenuation_mask freqs ! 1 = 6 / 10
         \<and> spectrum ! 1 = fft_signal ! 1 * complex_of_real (6 / 10)"
proof -
  let ?sig = "[1, 0, - 1, 0 :: real]"
  have h: "?sig \<noteq> []" "length ?sig \<le> 2 ^ 53" "0 < (8000::nat)" "(8000::nat) \<le> 2 ^ 53"
      "1 \<le> length ?sig div 2"
    by simp_all
  from attenuation_gain_bands[OF h] obtain F freqs S where
    r: "rfft ?sig = Inr F"
       "attenuated_spectrum ?sig 8000 = Inr S"
       "freqs ! 1 = fl64 (fl64 (real (1::nat))
                 * fl64 (1 / fl64 (fl64 (real (length ?sig)) * fl64 (1 / real (8000::nat)))))"
       "attenuation_mask freqs ! 1 = band_gain (freqs ! 1)"
       "S ! 1 = F ! 1 * complex_of_real (band_gain (freqs ! 1))"
    by blast
  have f1: "freqs ! 1 = 2000" using r(3) frequency_4_8000_1 by simp
  have g: "band_gain 2000 = 6 / 10" by (simp add: band_gain_def)
  show ?thesis
    using r(1) r(2) f1 r(4) r(5) g by (intro exI[of _ F] exI[of _ freqs] exI[of _ S]) simp
qed

section \<open>Facts about the session\<close>














section \<open>Facts about whole sessions\<close>

lemma process_one_ok:
  assumes "librosa_load env p = Inr (audio, sr)" "2 \<le> length audio" "0 < sr" "sr \<le> 2 ^ 53"
  shows "\<exists>buf. process_one env p = Inr (buf, sr)"
proof -
  from attenuation_length[OF assms(2,3,4)] obtain ys where
    ys: "apply_frequency_dependent_attenuation audio sr = Inr ys" "length ys = 2 * (length audio div 2)"
    by (auto simp: result_length_def split: sum.splits)
  have "ys \<noteq> []" using ys(2) assms(2) by auto
  then obtain out where "apply_dynamic_range_compression ys = Inr out"
    by (auto simp: apply_dynamic_range_compression_def np_max_def compressed_signal_def)
  then show ?thesis using assms(1) ys(1) by (simp add: process_one_def)
qed


lemma studio_a: "\<exists>buf. process_one studio ''/in/a.wav'' = Inr (buf, 8000)"
  by (rule process_one_ok[where audio = "[1, 0, - 1, 0]"]) (simp_all add: studio_def)


lemma run_snoc: "run env d (events @ [ev]) = handle env (run env d events) ev"
  by (simp add: run_def)

lemma run_append: "run env d (events @ later) = foldl (handle env) (run env d events) later"
  by (simp add: run_def)

lemma run_first_batch:
  assumes "process_one studio ''/in/a.wav'' = Inr (buf, 8000)"
  shows "run studio [] first_batch =
     \<lparr>audio_paths = [''/in/a.wav''], processed_audios = [buf], sampling_rates = [8000],
      save_directory = None, loading = False, file_listbox = [''a.wav''],
      save_button_enabled = True, status_label = ''Audio files processed successfully.'',
      dialogs = [], disk = []\<rparr>"
  using assms
  by (simp add: run_def first_batch_def initial_app_def process_audios_def Let_def basename_def rfind_def)


lemma run_grown_session:
  assumes "process_one studio ''/in/a.wav'' = Inr (buf, 8000)"
  shows "run studio [] grown_session =
     \<lparr>audio_paths = [''/in/a.wav'', ''/in/c.mp3''], processed_audios = [buf], sampling_rates = [8000],
      save_directory = None, loading = False, file_listbox = [''a.wav'', ''c.mp3''],
      save_button_enabled = True, status_label = ''Audio files processed successfully.'',
      dialogs = [], disk = []\<rparr>"
  unfolding grown_session_def
  by (simp add: run_append run_first_batch[OF assms] basename_def rfind_def)

lemma out_a: "output_path ''/out'' ''/in/a.wav'' = ''/out/a_SNHL_sim.wav''"
  by (simp add: output_path_def basename_def rfind_def splitext_def path_join_def)






text \<open>
  C6. The claim: paths, buffers and rates stay aligned index by index after every operation,
  and the export never reads past the end of the buffers or the rates. In the code the
  export takes its indices from the paths and checks only that buffers and rates are not
  empty: after a finished batch of one file a second path is added, and there are two paths
  with one buffer and one rate; the export, enabled by the finished batch, reads
  \<^verbatim>\<open>self.processed_audios[1]\<close> past the end, and the IndexError ends it.
\<close>

theorem export_reads_past_end_after_adding:
  "length (audio_paths (run studio [] grown_session)) = 2
   \<and> length (processed_audios (run studio [] grown_session)) = 1
   \<and> length (sampling_rates (run studio [] grown_session)) = 1
   \<and> save_button_enabled (run studio [] grown_session)
   \<and> dialogs (run studio [] (grown_session @ [ChooseDirClicked ''/out'', SaveClicked]))
     = [ShowError ''Save Error'' ''An error occurred while saving the files: list index out of range'']"
proof -
  from studio_a obtain buf where a: "process_one studio ''/in/a.wav'' = Inr (buf, 8000)" by blast
  have w: "sf_write studio [] ''/out/a_SNHL_sim.wav'' buf 8000 = ([(''/out/a_SNHL_sim.wav'', buf, 8000)], None)"
    by (simp add: studio_def)
  have "dialogs (run studio [] (grown_session @ [ChooseDirClicked ''/out'', SaveClicked]))
     = [ShowError ''Save Error'' ''An error occurred while saving the files: list index out of range'']"
    by (simp add: run_append run_grown_session[OF a]
        choose_save_directory_def save_audios_def Let_def out_a w)
  then show ?thesis by (simp add: run_grown_session[OF a])
qed

section \<open>Facts about path names\<close>












section \<open>Facts about the export\<close>

lemma save_loop_in_order:
  assumes "k + length ps \<le> length bufs" "k + length ps \<le> length rates"
  shows "save_loop env dir bufs rates k ps d saved
         = export_in_order env dir (zip ps (zip (drop k bufs) (drop k rates))) d saved"
  using assms
proof (induction ps arbitrary: k d saved)
  case Nil
  show ?case by simp
next
  case (Cons p ps)
  have kb: "k < length bufs" and kr: "k < length rates" using Cons.prems by simp_all
  have db: "drop k bufs = bufs ! k # drop (Suc k) bufs" using kb by (simp add: Cons_nth_drop_Suc)
  have dr: "drop k rates = rates ! k # drop (Suc k) rates" using kr by (simp add: Cons_nth_drop_Suc)
  have ih: "save_loop env dir bufs rates (Suc k) ps d' saved'
            = export_in_order env dir (zip ps (zip (drop (Suc k) bufs) (drop (Suc k) rates))) d' saved'"
    for d' saved'
    using Cons.prems by (intro Cons.IH) simp_all
  show ?case using kb kr by (simp add: db dr ih Let_def split: prod.splits option.splits)
qed

lemma save_loop_append:
  "save_loop env dir bufs rates k (ps @ qs) d saved =
     (case save_loop env dir bufs rates k ps d saved of
        (d', saved', None) \<Rightarrow> save_loop env dir bufs rates (k + length ps) qs d' saved'
      | (d', saved', Some e) \<Rightarrow> (d', saved', Some e))"
proof (induction ps arbitrary: k d saved)
  case Nil
  show ?case by simp
next
  case (Cons p ps)
  show ?case by (simp add: Cons.IH Let_def split: prod.splits option.splits)
qed

lemma save_loop_saved:
  "save_loop env dir bufs rates k ps d saved = (d', saved', None)
   \<Longrightarrow> saved' = saved @ map (output_path dir) ps"
proof (induction ps arbitrary: k d saved)
  case Nil
  then show ?case by simp
next
  case (Cons p ps)
  from Cons.prems show ?case
    by (auto simp: Let_def split: if_splits prod.splits option.splits dest!: Cons.IH)
qed

text \<open>
  C8. With the three collections aligned, the export loop is the in-order export of the
  triples; and when the first \<open>i\<close> files are written and the write of file \<open>i\<close> raises,
  the loop stops there: the disk is the one the failing write left on top of the \<open>i\<close>
  files already written, no later file is attempted, a Save Error dialog carries the
  exception, and the status label is not updated.
\<close>

theorem export_aborts_on_first_failure:
  assumes "save_directory s = Some dir" "dir \<noteq> []"
      and "length (processed_audios s) = length (audio_paths s)"
      and "length (sampling_rates s) = length (audio_paths s)"
      and "i < length (audio_paths s)"
      and "save_loop env dir (processed_audios s) (sampling_rates s) 0
             (take i (audio_paths s)) (disk s) [] = (d_i, saved, None)"
      and "sf_write env d_i (output_path dir (audio_paths s ! i))
             (processed_audios s ! i) (sampling_rates s ! i) = (d_f, Some e)"
  shows "save_loop env dir (processed_audios s) (sampling_rates s) 0 (audio_paths s) (disk s) []
           = export_in_order env dir
               (zip (audio_paths s) (zip (processed_audios s) (sampling_rates s))) (disk s) []
         \<and> save_loop env dir (processed_audios s) (sampling_rates s) 0 (audio_paths s) (disk s) []
           = (d_f, map (output_path dir) (take i (audio_paths s)), Some e)
         \<and> disk (save_audios env s) = d_f
         \<and> dialogs (save_audios env s)
           = dialogs s @ [ShowError ''Save Error''
                            (''An error occurred while saving the files: '' @ str_of_error e)]
         \<and> status_label (save_audios env s) = status_label s"
proof -
  let ?ps = "audio_paths s" and ?bufs = "processed_audios s" and ?rates = "sampling_rates s"
  have ord: "save_loop env dir ?bufs ?rates 0 ?ps (disk s) []
             = export_in_order env dir (zip ?ps (zip ?bufs ?rates)) (disk s) []"
    using save_loop_in_order[of 0 ?ps ?bufs ?rates env dir "disk s" "[]"] assms(3,4) by simp
  have split: "?ps = take i ?ps @ (?ps ! i # drop (Suc i) ?ps)"
    using assms(5) by (simp add: id_take_nth_drop[symmetric])
  have len: "length (take i ?ps) = i" using assms(5) by simp
  have sv: "saved = map (output_path dir) (take i ?ps)"
    using save_loop_saved[OF assms(6)] by simp
  have at_i: "save_loop env dir ?bufs ?rates i (?ps ! i # drop (Suc i) ?ps) d_i saved
              = (d_f, saved, Some e)"
    using assms(3,4,5,7) by (simp add: Let_def)
  have "save_loop env dir ?bufs ?rates 0 (take i ?ps @ (?ps ! i # drop (Suc i) ?ps)) (disk s) []
        = (d_f, saved, Some e)"
    unfolding save_loop_append assms(6) using at_i len by simp
  then have whole: "save_loop env dir ?bufs ?rates 0 ?ps (disk s) [] = (d_f, saved, Some e)"
    using split by simp
  have ne: "?bufs \<noteq> []" "?rates \<noteq> []" using assms(3,4,5) by auto
  have sa: "save_audios env s
            = s\<lparr>disk := d_f,
                dialogs := dialogs s @
                  [ShowError ''Save Error''
                     (''An error occurred while saving the files: '' @ str_of_error e)]\<rparr>"
    using ne assms(1,2) whole by (simp add: save_audios_def)
  show ?thesis using ord whole sv sa by simp
qed

theorem export_aborts_on_first_failure_witness:
  "disk (save_audios studio
      \<lparr>audio_paths = [''/in/a.wav'', ''/in/c.mp3'', ''/in/b.wav''],
       processed_audios = [[Finite 1, NaN], [Finite 1], [Finite (1 / 2)]],
       sampling_rates = [8000, 44100, 8000], save_directory = Some ''/out'', loading = False,
       file_listbox = [], save_button_enabled = True, status_label = ''old'', dialogs = [],
       disk = []\<rparr>)
   = [(''/out/a_SNHL_sim.wav'', [Finite 1, NaN], 8000)]
   \<and> dialogs (save_audios studio
      \<lparr>audio_paths = [''/in/a.wav'', ''/in/c.mp3'', ''/in/b.wav''],
       processed_audios = [[Finite 1, NaN], [Finite 1], [Finite (1 / 2)]],
       sampling_rates = [8000, 44100, 8000], save_directory = Some ''/out'', loading = False,
       file_listbox = [], save_button_enabled = True, status_label = ''old'', dialogs = [],
       disk = []\<rparr>)
   = [ShowError ''Save Error'' ''An error occurred while saving the files: Format not recognised.'']"
proof -
  let ?s = "\<lparr>audio_paths = [''/in/a.wav'', ''/in/c.mp3'', ''/in/b.wav''],
       processed_audios = [[Finite 1, NaN], [Finite 1], [Finite (1 / 2)]],
       sampling_rates = [8000, 44100, 8000], save_directory = Some ''/out'', loading = False,
       file_listbox = [], save_button_enabled = True, status_label = ''old'', dialogs = [],
       disk = [] :: (string \<times> npfloat list \<times> nat) list\<rparr>"
  let ?d = "[(''/out/a_SNHL_sim.wav'', [Finite 1, NaN], 8000 :: nat)]"
  have oa: "output_path ''/out'' ''/in/a.wav'' = ''/out/a_SNHL_sim.wav''"
    by (simp add: output_path_def basename_def rfind_def splitext_def path_join_def)
  have oc: "output_path ''/out'' ''/in/c.mp3'' = ''/out/c_SNHL_sim.mp3''"
    by (simp add: output_path_def basename_def rfind_def splitext_def path_join_def)
  have h1: "save_directory ?s = Some ''/out''" "''/out'' \<noteq> []" by simp_all
  have h3: "length (processed_audios ?s) = length (audio_paths ?s)" by simp
  have h4: "length (sampling_rates ?s) = length (audio_paths ?s)" by simp
  have h5: "1 < length (audio_paths ?s)" by simp
  have h6: "save_loop studio ''/out'' (processed_audios ?s) (sampling_rates ?s) 0
              (take 1 (audio_paths ?s)) (disk ?s) [] = (?d, [''/out/a_SNHL_sim.wav''], None)"
    by (simp add: oa studio_def Let_def)
  have h7: "sf_write studio ?d (output_path ''/out'' (audio_paths ?s ! 1))
              (processed_audios ?s ! 1) (sampling_rates ?s ! 1)
            = (?d, Some (LibraryError ''Format not recognised.''))"
    by (simp add: oc studio_def)
  note t = export_aborts_on_first_failure[OF h1 h3 h4 h5 h6 h7]
  have d: "disk (save_audios studio ?s) = ?d" using t by blast
  have m: "dialogs (save_audios studio ?s)
           = dialogs ?s @ [ShowError ''Save Error''
               (''An error occurred while saving the files: ''
                  @ str_of_error (LibraryError ''Format not recognised.''))]"
    using t by blast
  show ?thesis using d m by simp
qed

section \<open>Facts about rebuilding the results and naming the exports\<close>





end
